theory Spec2Isabelle
  imports Complex_Main "HOL-Library.Word"
begin

section \<open>Numbers\<close>

text \<open>
  The program computes with JavaScript numbers. Finite values are idealised as reals
  (no rounding, no overflow, no signed zero); the three non-finite results that the
  arithmetic of the program can produce are kept as values of their own, because HOL's
  total operations (\<open>x / 0 = 0\<close>, \<open>ln 0 = 0\<close>) would otherwise hide them.
  Only the operations whose operands can make them non-finite (a division by a variable,
  \<open>Math.log10\<close>, \<open>Math.max\<close> over a spread array) are modelled on \<open>jsnum\<close>;
  arithmetic with constant non-zero divisors is written on reals directly.
\<close>

datatype jsnum = Num real | PosInf | NegInf | NaN

fun js_add :: "jsnum \<Rightarrow> jsnum \<Rightarrow> jsnum" where
  "js_add (Num a) (Num b) = Num (a + b)"
| "js_add NaN _ = NaN"
| "js_add _ NaN = NaN"
| "js_add PosInf NegInf = NaN"
| "js_add NegInf PosInf = NaN"
| "js_add PosInf _ = PosInf"
| "js_add _ PosInf = PosInf"
| "js_add NegInf _ = NegInf"
| "js_add _ NegInf = NegInf"

fun js_neg :: "jsnum \<Rightarrow> jsnum" where
  "js_neg (Num a) = Num (- a)"
| "js_neg PosInf = NegInf"
| "js_neg NegInf = PosInf"
| "js_neg NaN = NaN"

fun js_scale_inf :: "jsnum \<Rightarrow> real \<Rightarrow> jsnum" where
  "js_scale_inf i a = (if a = 0 then NaN else if 0 < a then i else js_neg i)"

fun js_mul :: "jsnum \<Rightarrow> jsnum \<Rightarrow> jsnum" where
  "js_mul (Num a) (Num b) = Num (a * b)"
| "js_mul NaN _ = NaN"
| "js_mul _ NaN = NaN"
| "js_mul PosInf (Num a) = js_scale_inf PosInf a"
| "js_mul NegInf (Num a) = js_scale_inf NegInf a"
| "js_mul (Num a) PosInf = js_scale_inf PosInf a"
| "js_mul (Num a) NegInf = js_scale_inf NegInf a"
| "js_mul PosInf PosInf = PosInf"
| "js_mul NegInf NegInf = PosInf"
| "js_mul PosInf NegInf = NegInf"
| "js_mul NegInf PosInf = NegInf"

text \<open>
  Division: a finite non-zero value over zero is an infinity, zero over zero is
  \<open>NaN\<close>. Every zero is taken as \<open>+0\<close>.
\<close>

fun js_div :: "jsnum \<Rightarrow> jsnum \<Rightarrow> jsnum" where
  "js_div (Num a) (Num b) =
     (if b \<noteq> 0 then Num (a / b)
      else if a = 0 then NaN else if 0 < a then PosInf else NegInf)"
| "js_div NaN _ = NaN"
| "js_div _ NaN = NaN"
| "js_div (Num a) PosInf = Num 0"
| "js_div (Num a) NegInf = Num 0"
| "js_div PosInf (Num b) = (if 0 \<le> b then PosInf else NegInf)"
| "js_div NegInf (Num b) = (if 0 \<le> b then NegInf else PosInf)"
| "js_div PosInf PosInf = NaN"
| "js_div PosInf NegInf = NaN"
| "js_div NegInf PosInf = NaN"
| "js_div NegInf NegInf = NaN"

fun Math_log10 :: "jsnum \<Rightarrow> jsnum" where
  "Math_log10 (Num a) = (if a < 0 then NaN else if a = 0 then NegInf else Num (log 10 a))"
| "Math_log10 PosInf = PosInf"
| "Math_log10 NegInf = NaN"
| "Math_log10 NaN = NaN"

fun Math_max :: "jsnum \<Rightarrow> jsnum \<Rightarrow> jsnum" where
  "Math_max (Num a) (Num b) = Num (max a b)"
| "Math_max NaN _ = NaN"
| "Math_max _ NaN = NaN"
| "Math_max PosInf _ = PosInf"
| "Math_max _ PosInf = PosInf"
| "Math_max NegInf b = b"
| "Math_max a NegInf = a"

text \<open>\<open>Math.max(...xs)\<close>: the maximum of no arguments is \<open>-Infinity\<close>.\<close>

definition Math_max_spread :: "real list \<Rightarrow> jsnum" where
  "Math_max_spread xs = foldl Math_max NegInf (map Num xs)"

fun Math_cos :: "jsnum \<Rightarrow> jsnum" where
  "Math_cos (Num a) = Num (cos a)"
| "Math_cos _ = NaN"

fun Math_sin :: "jsnum \<Rightarrow> jsnum" where
  "Math_sin (Num a) = Num (sin a)"
| "Math_sin _ = NaN"

text \<open>\<open>v || 0\<close> on a number: \<open>NaN\<close> and zero are falsy.\<close>

fun or_zero :: "jsnum \<Rightarrow> jsnum" where
  "or_zero NaN = Num 0"
| "or_zero (Num a) = (if a = 0 then Num 0 else Num a)"
| "or_zero v = v"

fun is_finite :: "jsnum \<Rightarrow> bool" where
  "is_finite (Num a) = True"
| "is_finite _ = False"

section \<open>Data model\<close>

datatype SourceType = Noise | Voice | Music | Ambient | Unknown

record Position =
  pos_x :: real
  pos_y :: real
  pos_z :: real

text \<open>
  A colour is either a literal such as \<open>#ff6b6b\<close> or the template
  \<open>hsl(h, 70%, 60%)\<close> with a drawn hue \<open>h\<close>.
\<close>

datatype Color = Hex string | Hsl real

record AudioSource =
  id' :: string
  name :: string
  type' :: SourceType
  decibel :: real
  frequency :: real
  position :: Position
  distance :: real
  visible :: bool
  color :: Color

record Point =
  pt_x :: real
  pt_y :: real

section \<open>Sonar view: dragging the listener\<close>

text \<open>
  The canvas element is declared with \<open>width={500} height={500}\<close>. Pointer coordinates
  are given relative to the canvas (\<open>e.clientX - rect.left\<close>, \<open>e.clientY - rect.top\<close>).
\<close>

definition canvas_width :: real where "canvas_width = 500"
definition canvas_height :: real where "canvas_height = 500"

record SonarState =
  listenerPosition :: Point
  isDragging :: bool
  pulseRadius :: nat

definition initialSonarState :: SonarState where
  "initialSonarState =
     \<lparr>listenerPosition = \<lparr>pt_x = 250, pt_y = 250\<rparr>, isDragging = False, pulseRadius = 0\<rparr>"

definition handleMouseDown :: "real \<Rightarrow> real \<Rightarrow> SonarState \<Rightarrow> SonarState" where
  "handleMouseDown ex ey s =
     (let dist = sqrt ((ex - pt_x (listenerPosition s))\<^sup>2 + (ey - pt_y (listenerPosition s))\<^sup>2)
      in if dist \<le> 15 then s\<lparr>isDragging := True\<rparr> else s)"

definition handleMouseMove :: "real \<Rightarrow> real \<Rightarrow> SonarState \<Rightarrow> SonarState" where
  "handleMouseMove ex ey s =
     (if \<not> isDragging s then s
      else
        let clampedX = max 20 (min ex (canvas_width - 20));
            clampedY = max 20 (min ey (canvas_height - 20))
        in s\<lparr>listenerPosition := \<lparr>pt_x = clampedX, pt_y = clampedY\<rparr>\<rparr>)"

definition handleMouseUp :: "SonarState \<Rightarrow> SonarState" where
  "handleMouseUp s = s\<lparr>isDragging := False\<rparr>"

text \<open>The canvas wires \<open>onMouseUp\<close> and \<open>onMouseLeave\<close> to the same handler.\<close>

datatype PointerEvent = MouseDown real real | MouseMove real real | MouseUp | MouseLeave

fun pointer :: "SonarState \<Rightarrow> PointerEvent \<Rightarrow> SonarState" where
  "pointer s (MouseDown ex ey) = handleMouseDown ex ey s"
| "pointer s (MouseMove ex ey) = handleMouseMove ex ey s"
| "pointer s MouseUp = handleMouseUp s"
| "pointer s MouseLeave = handleMouseUp s"

definition pointer_events :: "SonarState \<Rightarrow> PointerEvent list \<Rightarrow> SonarState" where
  "pointer_events s evs = foldl pointer s evs"

definition within_margin :: "Point \<Rightarrow> bool" where
  "within_margin p \<longleftrightarrow>
     20 \<le> pt_x p \<and> pt_x p \<le> canvas_width - 20 \<and> 20 \<le> pt_y p \<and> pt_y p \<le> canvas_height - 20"

section \<open>Level chart: the bounded history\<close>

text \<open>
  \<open>DecibelChart\<close> receives the current loudness as the prop \<open>currentDecibel\<close> and keeps
  \<open>decibelHistory\<close>. The appending effect is declared with the dependency list
  \<open>[currentDecibel]\<close>: it runs after the first render and after every render whose
  \<open>currentDecibel\<close> differs from that of the render before. \<open>renderedDecibel\<close> is
  that remembered dependency (\<open>None\<close> before the first render).
\<close>

definition maxDataPoints :: nat where "maxDataPoints = 100"

text \<open>\<open>xs.slice(-n)\<close>: the last \<open>n\<close> elements, all of them when there are fewer.\<close>

definition slice_last :: "nat \<Rightarrow> 'a list \<Rightarrow> 'a list" where
  "slice_last n xs = (if n = 0 then xs else drop (length xs - n) xs)"

record ChartState =
  renderedDecibel :: "real option"
  decibelHistory :: "real list"

definition mountChart :: ChartState where
  "mountChart = \<lparr>renderedDecibel = None, decibelHistory = []\<rparr>"

definition historyEffect :: "real \<Rightarrow> real list \<Rightarrow> real list" where
  "historyEffect currentDecibel prev =
     (if currentDecibel > 0
      then (let newHistory = prev @ [currentDecibel] in slice_last maxDataPoints newHistory)
      else prev)"

definition renderChart :: "ChartState \<Rightarrow> real \<Rightarrow> ChartState" where
  "renderChart s currentDecibel =
     (if renderedDecibel s = Some currentDecibel then s
      else \<lparr>renderedDecibel = Some currentDecibel,
            decibelHistory = historyEffect currentDecibel (decibelHistory s)\<rparr>)"

definition deliver :: "real list \<Rightarrow> ChartState" where
  "deliver samples = foldl renderChart mountChart samples"

text \<open>
  The samples that get appended, described on the sequence alone: the strictly positive
  ones that differ from the sample delivered just before.
\<close>

fun appended :: "real option \<Rightarrow> real list \<Rightarrow> real list" where
  "appended prev [] = []"
| "appended prev (d # ds) =
     (if prev \<noteq> Some d \<and> 0 < d then d # appended (Some d) ds else appended (Some d) ds)"

section \<open>Capture adapter: loudness of one tick\<close>

text \<open>
  \<open>analyze\<close> reads \<open>frequencyBinCount\<close> bytes into a \<open>Uint8Array\<close> and passes
  \<open>Math.max(0, decibel)\<close> to \<open>onDecibelUpdate\<close>. The analyser is set up with
  \<open>fftSize = 2048\<close>, so the array has 1024 entries.
\<close>

definition fftSize :: nat where "fftSize = 2048"
definition frequencyBinCount :: nat where "frequencyBinCount = fftSize div 2"

definition analyze :: "8 word list \<Rightarrow> jsnum" where
  "analyze dataArray =
     (let bufferLength = length dataArray;
          sum = foldl (\<lambda>acc val. acc + real (unat val)) 0 dataArray;
          average = js_div (Num sum) (Num (real bufferLength));
          decibel = js_add (js_mul (Num 20) (Math_log10 (js_div average (Num 255)))) (Num 100)
      in Math_max (Num 0) decibel)"

text \<open>
  The specification's formula: the arithmetic mean of the bins, converted by
  \<open>20 * log10(mean / 255) + 100\<close> and clamped at zero, a mean of zero giving zero.
\<close>

definition mean_magnitude :: "8 word list \<Rightarrow> real" where
  "mean_magnitude bins = (\<Sum>b\<leftarrow>bins. real (unat b)) / real (length bins)"

definition spec_loudness :: "8 word list \<Rightarrow> real" where
  "spec_loudness bins =
     (if mean_magnitude bins = 0 then 0
      else max 0 (20 * log 10 (mean_magnitude bins / 255) + 100))"

section \<open>Progress simulator\<close>

text \<open>
  Times are milliseconds as \<open>Date.now()\<close> returns them. The clock is the list of the
  successive readings of \<open>Date.now()\<close>: each call takes the next reading. A run whose
  readings are used up is cut off there, so the reports of a finite clock are a prefix
  of the reports of every run that starts with these readings. The timer wait between
  two rounds (\<open>setTimeout\<close> of 50 ms) shows only as time passing between readings.
\<close>

record Stage =
  stage_name :: string
  duration :: int

definition analysisStages :: "Stage list" where
  "analysisStages =
     [\<lparr>stage_name = ''Preprocessing Audio'', duration = 1000\<rparr>,
      \<lparr>stage_name = ''CRNN Feature Extraction'', duration = 1500\<rparr>,
      \<lparr>stage_name = ''Deep Learning Classification'', duration = 2000\<rparr>,
      \<lparr>stage_name = ''KNN Distance Calculation'', duration = 1200\<rparr>,
      \<lparr>stage_name = ''Noise Pattern Recognition'', duration = 800\<rparr>,
      \<lparr>stage_name = ''Generating Report'', duration = 500\<rparr>]"

definition totalDuration :: int where
  "totalDuration = foldl (\<lambda>sum stage. sum + duration stage) 0 analysisStages"

text \<open>
  A report is one call of \<open>setAnalysisProgress\<close> inside the loop, with the reading of
  the clock from which its \<open>elapsed\<close> was computed.
\<close>

record ProgressReport =
  at_time :: int
  percent :: real

text \<open>
  The inner \<open>while (Date.now() < endTime)\<close> loop of one stage: the first reading is the
  loop test, the second the one in \<open>elapsed\<close>. The result is the reports of the stage
  and the readings left when the loop has ended (\<open>None\<close> when the clock was used up
  inside the loop).
\<close>

fun stage_loop :: "Stage \<Rightarrow> int \<Rightarrow> real \<Rightarrow> int list \<Rightarrow> ProgressReport list \<times> int list option" where
  "stage_loop stage startTime totalProgress [] = ([], None)"
| "stage_loop stage startTime totalProgress [t] =
     (if t < startTime + duration stage then ([], None) else ([], Some []))"
| "stage_loop stage startTime totalProgress (t # now # clock) =
     (if t < startTime + duration stage then
        (let elapsed = now - startTime;
             stageProgress = min (real_of_int elapsed / real_of_int (duration stage)) 1;
             currentStageWeight = real_of_int (duration stage) / real_of_int totalDuration;
             report = \<lparr>at_time = now, percent = totalProgress + stageProgress * currentStageWeight * 100\<rparr>
         in case stage_loop stage startTime totalProgress clock of
              (reports, rest) \<Rightarrow> (report # reports, rest))
      else ([], Some (now # clock)))"

fun run_stages :: "real \<Rightarrow> Stage list \<Rightarrow> int list \<Rightarrow> ProgressReport list" where
  "run_stages totalProgress [] clock = []"
| "run_stages totalProgress (stage # stages) [] = []"
| "run_stages totalProgress (stage # stages) (startTime # clock) =
     (case stage_loop stage startTime totalProgress clock of
        (reports, None) \<Rightarrow> reports
      | (reports, Some clock') \<Rightarrow>
          reports @
          run_stages (totalProgress + (real_of_int (duration stage) / real_of_int totalDuration) * 100)
            stages clock')"

text \<open>The percentage reported in a stage as a function of the reading \<open>now\<close>.\<close>

definition stage_percent :: "Stage \<Rightarrow> int \<Rightarrow> real \<Rightarrow> int \<Rightarrow> real" where
  "stage_percent stage startTime totalProgress now =
     totalProgress +
     min (real_of_int (now - startTime) / real_of_int (duration stage)) 1 *
     (real_of_int (duration stage) / real_of_int totalDuration) * 100"

text \<open>
  \<open>startAnalysis\<close>: the reports of the stage loops, and all values given to
  \<open>setAnalysisProgress\<close>, which starts with the reset to 0.
\<close>

definition progress_reports :: "int list \<Rightarrow> ProgressReport list" where
  "progress_reports clock = run_stages 0 analysisStages clock"

definition reported_percentages :: "int list \<Rightarrow> real list" where
  "reported_percentages clock = 0 # map percent (progress_reports clock)"

section \<open>Strings\<close>

text \<open>The decimal text of a non-negative integer, as a template literal prints it.\<close>

definition digit_char :: "nat \<Rightarrow> char" where
  "digit_char d = char_of (48 + d)"

fun show_nat :: "nat \<Rightarrow> string" where
  "show_nat n = (if n < 10 then [digit_char n] else show_nat (n div 10) @ [digit_char (n mod 10)])"

declare show_nat.simps [simp del]

definition startsWith :: "string \<Rightarrow> string \<Rightarrow> bool" where
  "startsWith s p \<longleftrightarrow> take (length p) s = p"

definition endsWith :: "string \<Rightarrow> string \<Rightarrow> bool" where
  "endsWith s p \<longleftrightarrow> length p \<le> length s \<and> drop (length s - length p) s = p"

definition toLowerCase :: "char \<Rightarrow> char" where
  "toLowerCase c =
     (let n = (of_char c :: nat) in if 65 \<le> n \<and> n \<le> 90 then char_of (n + 32) else c)"

section \<open>Mock source generator\<close>

text \<open>
  \<open>Math.random()\<close> is a stream \<open>rnd\<close> of draws, each in the interval from 0 (included)
  to 1 (excluded); the \<open>k\<close>-th call returns \<open>rnd k\<close>. The generators take the draws in
  the order in which the source evaluates its calls.
\<close>

record File =
  file_name :: string
  file_type :: string
  file_size :: nat

definition categories :: "SourceType list" where
  "categories = [Noise, Voice, Music, Ambient, Unknown]"

text \<open>A stream of draws: 0.3 at index 1, 0.5 at index 2, and 0 elsewhere.\<close>

definition exampleDraws :: "nat \<Rightarrow> real" where
  "exampleDraws k = (if k = 1 then 3 / 10 else if k = 2 then 1 / 2 else 0)"

text \<open>
  One generated source of \<open>analyzeFiles\<close>; \<open>k\<close> is the index of its first draw. The
  properties are evaluated in the order of the object literal: type, decibel, frequency,
  position (x, y, z), distance and colour.
\<close>

definition mockSource :: "(nat \<Rightarrow> real) \<Rightarrow> nat \<Rightarrow> File \<Rightarrow> nat \<Rightarrow> nat \<Rightarrow> AudioSource" where
  "mockSource rnd k file fileIndex sourceIndex =
     \<lparr>id' = ''file-'' @ show_nat fileIndex @ ''-source-'' @ show_nat sourceIndex,
      name = takeWhile (\<lambda>c. c \<noteq> CHR ''.'') (file_name file) @ '' - Source '' @ show_nat (sourceIndex + 1),
      type' = categories ! nat \<lfloor>rnd k * 5\<rfloor>,
      decibel = 30 + rnd (k + 1) * 60,
      frequency = 100 + rnd (k + 2) * 1000,
      position = \<lparr>pos_x = rnd (k + 3) * 100, pos_y = rnd (k + 4) * 100, pos_z = rnd (k + 5) * 50\<rparr>,
      distance = 1 + rnd (k + 6) * 25,
      visible = True,
      color = Hsl (rnd (k + 7) * 360)\<rparr>"

text \<open>The sources of one file and the index of the next unused draw.\<close>

definition fileSources :: "(nat \<Rightarrow> real) \<Rightarrow> nat \<Rightarrow> File \<Rightarrow> nat \<Rightarrow> AudioSource list \<times> nat" where
  "fileSources rnd k file fileIndex =
     (let numSources = nat (2 + \<lfloor>rnd k * 3\<rfloor>)
      in (map (\<lambda>sourceIndex. mockSource rnd (k + 1 + 8 * sourceIndex) file fileIndex sourceIndex)
            [0..<numSources],
          k + 1 + 8 * numSources))"

fun sourcesPerFile :: "(nat \<Rightarrow> real) \<Rightarrow> nat \<Rightarrow> nat \<Rightarrow> File list \<Rightarrow> AudioSource list list" where
  "sourcesPerFile rnd k fileIndex [] = []"
| "sourcesPerFile rnd k fileIndex (file # files) =
     (case fileSources rnd k file fileIndex of
        (sources, k') \<Rightarrow> sources # sourcesPerFile rnd k' (Suc fileIndex) files)"

text \<open>\<open>files.flatMap(...)\<close>: the sources of all files, in file order.\<close>

definition analyzeFiles :: "(nat \<Rightarrow> real) \<Rightarrow> File list \<Rightarrow> AudioSource list" where
  "analyzeFiles rnd files = concat (sourcesPerFile rnd 0 0 files)"

text \<open>The generator of the recorder: three fixed sources, the recorded blob is not read.\<close>

definition analyzeRecordedAudio :: "(nat \<Rightarrow> real) \<Rightarrow> AudioSource list" where
  "analyzeRecordedAudio rnd =
     [\<lparr>id' = ''source-1'', name = ''Background Noise'', type' = Noise,
       decibel = 45 + rnd 0 * 20, frequency = 200 + rnd 1 * 400,
       position = \<lparr>pos_x = rnd 2 * 100, pos_y = rnd 3 * 100, pos_z = rnd 4 * 50\<rparr>,
       distance = 5 + rnd 5 * 15, visible = True, color = Hex ''#ff6b6b''\<rparr>,
      \<lparr>id' = ''source-2'', name = ''Voice Activity'', type' = Voice,
       decibel = 60 + rnd 6 * 25, frequency = 300 + rnd 7 * 500,
       position = \<lparr>pos_x = rnd 8 * 100, pos_y = rnd 9 * 100, pos_z = rnd 10 * 50\<rparr>,
       distance = 2 + rnd 11 * 8, visible = True, color = Hex ''#4ecdc4''\<rparr>,
      \<lparr>id' = ''source-3'', name = ''Ambient Sound'', type' = Ambient,
       decibel = 35 + rnd 12 * 15, frequency = 100 + rnd 13 * 300,
       position = \<lparr>pos_x = rnd 14 * 100, pos_y = rnd 15 * 100, pos_z = rnd 16 * 50\<rparr>,
       distance = 10 + rnd 17 * 20, visible = True, color = Hex ''#45b7d1''\<rparr>]"

section \<open>Application state and the uploader\<close>

record App =
  audioSources :: "AudioSource list"
  datasetSize :: real

definition initialApp :: App where
  "initialApp = \<lparr>audioSources = [], datasetSize = 0\<rparr>"

definition setDatasetSize :: "real \<Rightarrow> App \<Rightarrow> App" where
  "setDatasetSize v app = app\<lparr>datasetSize := v\<rparr>"

definition handleAudioAnalysis :: "AudioSource list \<Rightarrow> App \<Rightarrow> App" where
  "handleAudioAnalysis sources app =
     (let totalSize = foldl (\<lambda>acc source. acc + frequency source * 0.001) 0 sources
      in app\<lparr>audioSources := sources, datasetSize := totalSize\<rparr>)"

definition audio_extensions :: "string list" where
  "audio_extensions = [''mp3'', ''wav'', ''ogg'', ''m4a'', ''aac'', ''flac'']"

text \<open>
  The filter of \<open>handleFileSelect\<close>: a MIME type that starts with \<open>audio/\<close>, or a name
  that matches \<open>/\.(mp3|wav|ogg|m4a|aac|flac)$/i\<close>.
\<close>

definition isAudioFile :: "File \<Rightarrow> bool" where
  "isAudioFile file \<longleftrightarrow>
     startsWith (file_type file) ''audio/'' \<or>
     list_ex (\<lambda>ext. endsWith (map toLowerCase (file_name file)) (CHR ''.'' # ext)) audio_extensions"

text \<open>
  \<open>handleFileSelect\<close> on the uploader's \<open>uploadedFiles\<close> and the application state
  behind its callbacks (\<open>onDatasetSizeChange\<close> is \<open>setDatasetSize\<close>, \<open>onAudioAnalysis\<close>
  is \<open>handleAudioAnalysis\<close>). The third component is the argument of the call of
  \<open>analyzeFiles\<close> that it starts, if any; that call delivers its sources after a timer
  of 2000 ms. Handing the object URL of the first file to the player is left out.
\<close>

definition handleFileSelect ::
  "File list option \<Rightarrow> File list \<times> App \<Rightarrow> File list \<times> App \<times> File list option" where
  "handleFileSelect files st =
     (case files of
        None \<Rightarrow> (fst st, snd st, None)
      | Some fs \<Rightarrow>
          (let uploadedFiles = fst st;
               audioFiles = filter isAudioFile fs;
               totalSize = real (foldl (\<lambda>acc file. acc + file_size file) 0 (uploadedFiles @ audioFiles))
                             / (1024 * 1024);
               app = setDatasetSize totalSize (snd st)
           in (uploadedFiles @ audioFiles, app,
               if length audioFiles > 0 then Some (uploadedFiles @ audioFiles) else None)))"

text \<open>The end of \<open>analyzeFiles\<close>: the generated sources go to \<open>onAudioAnalysis\<close>.\<close>

definition analyzeFiles_done :: "(nat \<Rightarrow> real) \<Rightarrow> File list \<Rightarrow> App \<Rightarrow> App" where
  "analyzeFiles_done rnd files app = handleAudioAnalysis (analyzeFiles rnd files) app"

text \<open>An audio file of 2 MB, that is 2 * 1024 * 1024 bytes.\<close>

definition twoMegabyteFile :: File where
  "twoMegabyteFile = \<lparr>file_name = ''clip.wav'', file_type = ''audio/wav'', file_size = 2 * 1024 * 1024\<rparr>"

text \<open>An upload followed by the completion of the analysis it started.\<close>

definition upload :: "(nat \<Rightarrow> real) \<Rightarrow> File list \<Rightarrow> File list \<times> App \<Rightarrow> File list \<times> App" where
  "upload rnd fs st =
     (case handleFileSelect (Some fs) st of
        (uploadedFiles, app, None) \<Rightarrow> (uploadedFiles, app)
      | (uploadedFiles, app, Some pending) \<Rightarrow> (uploadedFiles, analyzeFiles_done rnd pending app))"

section \<open>Analysis results\<close>

record SourceDistribution =
  noise_count :: nat
  voice_count :: nat
  music_count :: nat
  ambient_count :: nat
  unknown_count :: nat

record AnalysisResults =
  totalSources :: nat
  noiseLevel :: jsnum
  dominantFrequency :: jsnum
  peakDecibel :: jsnum
  sourceDistribution :: SourceDistribution
  mlConfidence :: real
  anomalies :: int
  timestamp :: string

text \<open>
  \<open>generateAnalysisResults\<close>; the two draws of \<open>Math.random()\<close> and the text of the
  current date are arguments.
\<close>

definition generateAnalysisResults ::
  "AudioSource list \<Rightarrow> real \<Rightarrow> real \<Rightarrow> string \<Rightarrow> AnalysisResults" where
  "generateAnalysisResults audioSources' r1 r2 now =
     (let noiseSources = filter (\<lambda>s. type' s = Noise) audioSources';
          voiceSources = filter (\<lambda>s. type' s = Voice) audioSources';
          backgroundNoise =
            foldl (\<lambda>sum s. sum + (if type' s = Ambient then decibel s else 0)) 0 audioSources'
      in \<lparr>totalSources = length audioSources',
          noiseLevel = or_zero (js_div (Num backgroundNoise) (Num (real (length audioSources')))),
          dominantFrequency = Math_max_spread (map frequency audioSources'),
          peakDecibel = Math_max_spread (map decibel audioSources'),
          sourceDistribution =
            \<lparr>noise_count = length noiseSources,
             voice_count = length voiceSources,
             music_count = length (filter (\<lambda>s. type' s = Music) audioSources'),
             ambient_count = length (filter (\<lambda>s. type' s = Ambient) audioSources'),
             unknown_count = length (filter (\<lambda>s. type' s = Unknown) audioSources')\<rparr>,
          mlConfidence = 85 + r1 * 10,
          anomalies = \<lfloor>r2 * 3\<rfloor>,
          timestamp = now\<rparr>)"

section \<open>Sonar view: drawing a frame\<close>

text \<open>
  \<open>source.id.replace(/\D/g, '')\<close> keeps the decimal digits of the identifier.
  \<open>parseInt\<close> reads the longest prefix of decimal digits of its argument and yields
  \<open>NaN\<close> (here \<open>None\<close>) when there is none; its argument holds digits only, so sign,
  white space and radix prefixes do not occur. \<open>v || 0\<close> replaces \<open>NaN\<close> and 0 by 0.
\<close>

definition isDigit :: "char \<Rightarrow> bool" where
  "isDigit c \<longleftrightarrow> 48 \<le> (of_char c :: nat) \<and> (of_char c :: nat) \<le> 57"

definition digit_value :: "char \<Rightarrow> nat" where
  "digit_value c = of_char c - 48"

definition parseInt :: "string \<Rightarrow> nat option" where
  "parseInt s =
     (let ds = takeWhile isDigit s
      in if ds = [] then None else Some (foldl (\<lambda>acc c. 10 * acc + digit_value c) 0 ds))"

definition idNumber :: "string \<Rightarrow> nat" where
  "idNumber sid =
     (case parseInt (filter isDigit sid) of None \<Rightarrow> 0 | Some n \<Rightarrow> (if n = 0 then 0 else n))"




text \<open>What a frame shows: the drawing calls, reduced to their geometry and colours.\<close>

record Marker =
  marker_x :: real
  marker_y :: real
  marker_radius :: real
  wave_radii :: "real list"
  marker_color :: Color

record Label =
  label_text :: string
  label_x :: jsnum
  label_y :: jsnum
  label_color :: Color
  label_decibel :: real

record Frame =
  rings :: "(real \<times> string) list"
  markers :: "Marker list"
  listener :: Point
  pulse :: "(real \<times> real) option"
  labels :: "Label list"

definition drawRangeCircles :: "Point \<Rightarrow> (real \<times> string) list" where
  "drawRangeCircles center = map (\<lambda>i. (real i * 50, show_nat (i * 10) @ ''m'')) [1..<6]"

text \<open>
  \<open>drawAudioSource\<close>: the marker drawn, and the source with the field \<open>position\<close>
  overwritten by the last statement of the function.
\<close>

definition drawAudioSource :: "AudioSource \<Rightarrow> Point \<Rightarrow> Marker \<times> AudioSource" where
  "drawAudioSource source center =
     (let angle = real (idNumber (id' source)) * 0.5;
          dist = distance source * 5;
          x = pt_x center + cos angle * dist;
          y = pt_y center + sin angle * dist;
          intensity = max 0.2 (decibel source / 120);
          waveRadius = 10 + (decibel source / 120) * 20
      in (\<lparr>marker_x = x, marker_y = y, marker_radius = 8 * intensity,
           wave_radii = map (\<lambda>i. waveRadius + real i * 15) [0..<3],
           marker_color = color source\<rparr>,
          source\<lparr>position := \<lparr>pos_x = x - pt_x center, pos_y = y - pt_y center, pos_z = 0\<rparr>\<rparr>))"

definition drawPulse :: "nat \<Rightarrow> real \<times> real" where
  "drawPulse radius = (real radius, (150 - real radius) / 150)"

definition drawLabel :: "nat \<Rightarrow> nat \<Rightarrow> AudioSource \<Rightarrow> Point \<Rightarrow> Label" where
  "drawLabel index len source center =
     (let angle = js_mul (js_mul (js_div (Num (real index)) (Num (real len))) (Num 2)) (Num pi);
          labelX = js_add (Num (pt_x center)) (js_mul (Math_cos angle) (Num 280));
          labelY = js_add (Num (pt_y center)) (js_mul (Math_sin angle) (Num 280))
      in \<lparr>label_text = name source, label_x = labelX, label_y = labelY,
          label_color = color source, label_decibel = decibel source\<rparr>)"

definition drawLabels :: "AudioSource list \<Rightarrow> Point \<Rightarrow> Label list" where
  "drawLabels sources center =
     map (\<lambda>(index, source). drawLabel index (length sources) source center) (enumerate 0 sources)"

text \<open>
  The sources are objects shared between the application state and the view: the array
  given to the view holds references, and \<open>drawAudioSource\<close> writes through them. The
  store is the list of all source objects, a reference is an index into it.
\<close>

fun drawSources :: "AudioSource list \<Rightarrow> nat list \<Rightarrow> Point \<Rightarrow> Marker list \<times> AudioSource list" where
  "drawSources store [] center = ([], store)"
| "drawSources store (r # refs) center =
     (case drawAudioSource (store ! r) center of
        (m, source') \<Rightarrow>
          (case drawSources (store[r := source']) refs center of
             (ms, store') \<Rightarrow> (m # ms, store')))"

text \<open>One run of \<open>animate\<close> over the sources given to the view.\<close>

definition animate ::
  "AudioSource list \<Rightarrow> nat list \<Rightarrow> bool \<Rightarrow> SonarState \<Rightarrow> Frame \<times> AudioSource list" where
  "animate store refs isRecording s =
     (case drawSources store refs (listenerPosition s) of
        (ms, store') \<Rightarrow>
          (\<lparr>rings = drawRangeCircles (listenerPosition s),
            markers = ms,
            listener = listenerPosition s,
            pulse = (if isRecording then Some (drawPulse (pulseRadius s)) else None),
            labels = drawLabels (map (\<lambda>r. store' ! r) refs) (listenerPosition s)\<rparr>,
           store'))"

section \<open>Application state with shared source objects\<close>

record AppStore =
  store :: "AudioSource list"
  sourceRefs :: "nat list"

text \<open>\<open>setAudioSources(sources)\<close> with the freshly generated objects of an analysis run.\<close>

definition newAnalysis :: "AudioSource list \<Rightarrow> AppStore" where
  "newAnalysis sources = \<lparr>store = sources, sourceRefs = [0..<length sources]\<rparr>"

definition currentSources :: "AppStore \<Rightarrow> AudioSource list" where
  "currentSources st = map (\<lambda>r. store st ! r) (sourceRefs st)"

text \<open>
  \<open>toggleSoundVisibility\<close>: \<open>prev.map\<close> keeps the reference of a source whose id
  differs and puts a new object, the copy with \<open>visible\<close> negated, for one whose id
  matches.
\<close>

fun toggleMap :: "string \<Rightarrow> AudioSource list \<Rightarrow> nat list \<Rightarrow> AudioSource list \<times> nat list" where
  "toggleMap soundId st [] = (st, [])"
| "toggleMap soundId st (r # refs) =
     (if id' (st ! r) = soundId
      then (case toggleMap soundId (st @ [(st ! r)\<lparr>visible := \<not> visible (st ! r)\<rparr>]) refs of
              (st', refs') \<Rightarrow> (st', length st # refs'))
      else (case toggleMap soundId st refs of (st', refs') \<Rightarrow> (st', r # refs')))"

definition toggleSoundVisibility :: "string \<Rightarrow> AppStore \<Rightarrow> AppStore" where
  "toggleSoundVisibility soundId st =
     (case toggleMap soundId (store st) (sourceRefs st) of
        (st', refs') \<Rightarrow> \<lparr>store = st', sourceRefs = refs'\<rparr>)"

text \<open>
  A frame of the sonar view as the application renders it: the view receives
  \<open>audioSources.filter(source => source.visible)\<close>.
\<close>

definition renderSonar :: "bool \<Rightarrow> SonarState \<Rightarrow> AppStore \<Rightarrow> Frame \<times> AppStore" where
  "renderSonar isRecording s st =
     (case animate (store st) (filter (\<lambda>r. visible (store st ! r)) (sourceRefs st)) isRecording s of
        (frame, store') \<Rightarrow> (frame, st\<lparr>store := store'\<rparr>))"

datatype AppOp = ToggleSoundVisibility string | AnimationFrame bool SonarState

fun appStep :: "AppStore \<Rightarrow> AppOp \<Rightarrow> AppStore" where
  "appStep st (ToggleSoundVisibility soundId) = toggleSoundVisibility soundId st"
| "appStep st (AnimationFrame isRecording s) = snd (renderSonar isRecording s st)"

definition appRun :: "AppStore \<Rightarrow> AppOp list \<Rightarrow> AppStore" where
  "appRun st ops = foldl appStep st ops"

text \<open>Every reference of the application state points into the store.\<close>

definition validRefs :: "AppStore \<Rightarrow> bool" where
  "validRefs st \<longleftrightarrow> (\<forall>r\<in>set (sourceRefs st). r < length (store st))"

text \<open>The fields of a source other than \<open>visible\<close> and \<open>position\<close>.\<close>

definition fixedFields ::
  "AudioSource \<Rightarrow> string \<times> string \<times> SourceType \<times> real \<times> real \<times> real \<times> Color" where
  "fixedFields s = (id' s, name s, type' s, decibel s, frequency s, distance s, color s)"

section \<open>Report view\<close>

record ReportRow =
  row_name :: string
  row_type :: SourceType
  row_decibel :: real
  row_frequency :: real
  row_distance :: real
  row_color :: Color

record Technical =
  shown_mlConfidence :: real
  shown_anomalies :: int
  shown_dominantFrequency :: jsnum
  shown_noiseLevel :: jsnum
  shown_dynamicRange :: jsnum

record ReportPage =
  shown_sources :: nat
  shown_datasetSize :: real
  highestDb :: jsnum
  averageDb :: jsnum
  noisySources :: nat
  rows :: "ReportRow list"
  technical :: "Technical option"

datatype ReportView = NoAnalysisDataAvailable | ReportOf ReportPage

definition reportRow :: "AudioSource \<Rightarrow> ReportRow" where
  "reportRow source =
     \<lparr>row_name = name source, row_type = type' source, row_decibel = decibel source,
      row_frequency = frequency source, row_distance = distance source, row_color = color source\<rparr>"

definition ReportGenerator :: "AudioSource list \<Rightarrow> AnalysisResults option \<Rightarrow> real \<Rightarrow> ReportView" where
  "ReportGenerator audioSources' analysisData datasetSize' =
     (if length audioSources' = 0 then NoAnalysisDataAvailable
      else
        let highest = Math_max_spread (map decibel audioSources');
            average = js_div (Num (foldl (\<lambda>sum s. sum + decibel s) 0 audioSources'))
                             (Num (real (length audioSources')));
            noisy = filter (\<lambda>s. decibel s > 70) audioSources'
        in ReportOf
             \<lparr>shown_sources = length audioSources',
              shown_datasetSize = datasetSize',
              highestDb = highest,
              averageDb = average,
              noisySources = length noisy,
              rows = map reportRow audioSources',
              technical =
                (case analysisData of
                   None \<Rightarrow> None
                 | Some a \<Rightarrow>
                     Some \<lparr>shown_mlConfidence = mlConfidence a,
                           shown_anomalies = (if anomalies a = 0 then 0 else anomalies a),
                           shown_dominantFrequency = dominantFrequency a,
                           shown_noiseLevel = noiseLevel a,
                           shown_dynamicRange = js_add highest (js_neg (or_zero (noiseLevel a)))\<rparr>)\<rparr>)"

text \<open>The report as the application shows it.\<close>

definition showReport :: "App \<Rightarrow> AnalysisResults option \<Rightarrow> ReportView" where
  "showReport app analysisData = ReportGenerator (audioSources app) analysisData (datasetSize app)"

section \<open>Properties of the listener drag\<close>

lemma pointer_within_margin:
  "within_margin (listenerPosition s) \<Longrightarrow> within_margin (listenerPosition (pointer s e))"
  by (cases e)
     (auto simp: handleMouseDown_def handleMouseMove_def handleMouseUp_def within_margin_def
                 canvas_width_def canvas_height_def Let_def)

lemma foldl_pointer_within_margin:
  "within_margin (listenerPosition s) \<Longrightarrow> within_margin (listenerPosition (foldl pointer s evs))"
  by (induction evs arbitrary: s) (simp_all add: pointer_within_margin)

text \<open>
  Claim C2. The listener starts at (250, 250), which lies within the margin, and after
  any sequence of pointer events (presses anywhere, moves, releases and leaves, in any
  order) its position satisfies \<open>20 \<le> x \<le> width - 20\<close> and \<open>20 \<le> y \<le> height - 20\<close> on
  the 500 by 500 canvas.
\<close>

theorem listener_stays_within_margin:
  "within_margin (listenerPosition initialSonarState) \<and>
   within_margin (listenerPosition (pointer_events initialSonarState evs)) \<and>
   canvas_width = 500 \<and> canvas_height = 500"
proof -
  have init: "within_margin (listenerPosition initialSonarState)"
    by (simp add: within_margin_def initialSonarState_def canvas_width_def canvas_height_def)
  from foldl_pointer_within_margin [OF init]
  show ?thesis
    using init by (simp add: pointer_events_def canvas_width_def canvas_height_def)
qed

section \<open>Properties of the chart history\<close>

lemma slice_last_absorb:
  "0 < n \<Longrightarrow> slice_last n (slice_last n xs @ ys) = slice_last n (xs @ ys)"
proof (cases "length xs \<le> n")
  case True
  then show ?thesis by (simp add: slice_last_def)
next
  case False
  assume "0 < n"
  with False have e: "length xs + length ys - n = (length xs - n) + length ys"
    and l: "length xs - (length xs - n) = n"
    and m: "length ys + (length xs - n) - length xs = length ys - n" by arith+
  show ?thesis
    using \<open>0 < n\<close> by (simp add: slice_last_def e l m add.commute)
qed

lemma length_slice_last: "0 < n \<Longrightarrow> length (slice_last n xs) = min (length xs) n"
  by (auto simp: slice_last_def)

lemma foldl_renderChart:
  "decibelHistory (foldl renderChart s ds) =
     slice_last maxDataPoints (decibelHistory s @ appended (renderedDecibel s) ds)"
  if "length (decibelHistory s) \<le> maxDataPoints"
  using that
proof (induction ds arbitrary: s)
  case Nil
  then show ?case by (simp add: slice_last_def)
next
  case (Cons d ds)
  have len: "length (decibelHistory (renderChart s d)) \<le> maxDataPoints"
    using Cons.prems
    by (simp add: renderChart_def historyEffect_def length_slice_last maxDataPoints_def)
  have rd: "renderedDecibel (renderChart s d) = Some d"
    by (simp add: renderChart_def)
  show ?case
    using Cons.IH [OF len] 
    by (auto simp: rd renderChart_def historyEffect_def slice_last_absorb maxDataPoints_def)
qed

text \<open>
  Claim C1 (as amended). After any sequence of delivered samples the history holds at most
  100 entries: it is the last 100 of the appended samples, in arrival order, where a sample
  is appended when it is strictly positive and differs from the sample delivered just
  before it (the effect is keyed on \<open>currentDecibel\<close>). Its length is the minimum of
  the number of appended samples and 100.
\<close>

theorem history_is_last_appended:
  "decibelHistory (deliver samples) = slice_last maxDataPoints (appended None samples) \<and>
   length (decibelHistory (deliver samples)) = min (length (appended None samples)) maxDataPoints \<and>
   length (decibelHistory (deliver samples)) \<le> maxDataPoints \<and> maxDataPoints = 100"
proof -
  have "decibelHistory (deliver samples) = slice_last maxDataPoints (appended None samples)"
    unfolding deliver_def using foldl_renderChart [of mountChart samples]
    by (simp add: mountChart_def)
  then show ?thesis
    by (simp add: length_slice_last maxDataPoints_def)
qed

text \<open>
  Two equal, strictly positive samples in a row leave one entry in the history, where
  the count of positive samples seen is two.
\<close>

theorem repeated_sample_counterexample:
  "length (decibelHistory (deliver [45, 45])) = 1 \<and>
   min (length (filter (\<lambda>d. 0 < d) [45, 45 :: real])) maxDataPoints = 2"
  by (simp add: deliver_def renderChart_def historyEffect_def mountChart_def slice_last_def
      maxDataPoints_def)

section \<open>Properties of the loudness computation\<close>

lemma foldl_sum_unat:
  "foldl (\<lambda>acc val. acc + real (unat val)) a xs = a + (\<Sum>b\<leftarrow>xs. real (unat (b :: 8 word)))"
  by (induction xs arbitrary: a) (simp_all del: of_nat_unat)

lemma sum_unat_nonneg: "0 \<le> (\<Sum>b\<leftarrow>xs. real (unat (b :: 8 word)))"
  by (induction xs) (simp_all del: of_nat_unat)

lemma analyze_eq_spec:
  assumes "bins \<noteq> []"
  shows "analyze bins = Num (spec_loudness bins)"
proof -
  let ?s = "\<Sum>b\<leftarrow>bins. real (unat b)"
  have n: "real (length bins) \<noteq> 0" using assms by simp
  have s0: "0 \<le> ?s" by (rule sum_unat_nonneg)
  show ?thesis
  proof (cases "?s = 0")
    case True
    then show ?thesis
      using n by (simp add: analyze_def spec_loudness_def mean_magnitude_def foldl_sum_unat Let_def del: of_nat_unat)
  next
    case False
    with s0 have "0 < ?s" by simp
    then have "0 < ?s / real (length bins)" using assms by simp
    then show ?thesis
      using n False
      by (simp add: analyze_def spec_loudness_def mean_magnitude_def foldl_sum_unat Let_def del: of_nat_unat)
  qed
qed

lemma mean_replicate:
  "0 < n \<Longrightarrow> mean_magnitude (replicate n v) = real (unat v)"
  by (simp add: mean_magnitude_def sum_list_replicate del: of_nat_unat)

lemma spec_loudness_nonneg: "0 \<le> spec_loudness bins"
  by (simp add: spec_loudness_def)

text \<open>
  Claim C3. For every non-empty array of byte magnitudes (the analyser delivers 1024 of
  them) the loudness passed on is \<open>max(0, 20 * log10(mean / 255) + 100)\<close>, where a
  mean of zero gives zero; it is never negative; an all-zero array gives exactly 0 and
  an all-255 array exactly 100.
\<close>

theorem loudness_formula:
  assumes "bins \<noteq> []"
  shows "analyze bins = Num (spec_loudness bins) \<and> 0 \<le> spec_loudness bins \<and>
         analyze (replicate (length bins) 0) = Num 0 \<and>
         analyze (replicate (length bins) 255) = Num 100"
proof -
  have n: "0 < length bins" using assms by simp
  then have r: "replicate (length bins) v \<noteq> []" for v :: "8 word" by simp
  have z: "spec_loudness (replicate (length bins) 0) = 0"
    using n by (simp add: spec_loudness_def mean_replicate)
  have f: "spec_loudness (replicate (length bins) 255) = 100"
    using n by (simp add: spec_loudness_def mean_replicate)
  show ?thesis
    using analyze_eq_spec [OF assms] analyze_eq_spec [OF r] z f
    by (simp add: spec_loudness_nonneg)
qed

text \<open>The formula at the arrays [255, 255] and [0, 0].\<close>

theorem loudness_formula_witness:
  "[255, 255 :: 8 word] \<noteq> [] \<and> analyze [255, 255] = Num 100 \<and> analyze [0, 0] = Num 0"
  using loudness_formula [of "[255, 255]"]
  by (simp add: spec_loudness_def mean_magnitude_def)

text \<open>The arrays of the analyser itself, of 1024 bins: silence and full scale.\<close>

lemma analyser_arrays:
  "analyze (replicate frequencyBinCount 0) = Num 0 \<and>
   analyze (replicate frequencyBinCount 255) = Num 100 \<and> frequencyBinCount = 1024"
proof -
  have l: "0 < frequencyBinCount" by (simp add: frequencyBinCount_def fftSize_def)
  then have n: "replicate frequencyBinCount (v :: 8 word) \<noteq> []" for v
    by simp
  have z: "spec_loudness (replicate frequencyBinCount 0) = 0"
    using l by (simp add: spec_loudness_def mean_replicate)
  have f: "spec_loudness (replicate frequencyBinCount 255) = 100"
    using l by (simp add: spec_loudness_def mean_replicate)
  have c: "frequencyBinCount = 1024" by (simp add: frequencyBinCount_def fftSize_def)
  show ?thesis
    using analyze_eq_spec [OF n, of 0] analyze_eq_spec [OF n, of 255] z f c by (simp only: simp_thms)
qed

section \<open>Properties of the progress simulator\<close>

lemma totalDuration_value: "totalDuration = 7000"
  by (simp add: totalDuration_def analysisStages_def)


lemma stage_percent_split:
  "stage_percent stage startTime tp now =
     tp + min (real_of_int (now - startTime) / real_of_int (duration stage)) 1 *
          (real_of_int (duration stage) / real_of_int totalDuration * 100)"
  by (simp add: stage_percent_def)

lemma stage_weight_nonneg:
  "0 < duration stage \<Longrightarrow> 0 \<le> real_of_int (duration stage) / real_of_int totalDuration * 100"
  by (simp add: totalDuration_value)

lemma stage_percent_mono:
  assumes "0 < duration stage" "now \<le> now'"
  shows "stage_percent stage startTime tp now \<le> stage_percent stage startTime tp now'"
proof -
  define w where "w = real_of_int (duration stage) / real_of_int totalDuration * 100"
  define e where "e = min (real_of_int (now - startTime) / real_of_int (duration stage)) 1"
  define e' where "e' = min (real_of_int (now' - startTime) / real_of_int (duration stage)) 1"
  have w: "0 \<le> w" unfolding w_def using assms(1) by (rule stage_weight_nonneg)
  have "real_of_int (now - startTime) / real_of_int (duration stage)
          \<le> real_of_int (now' - startTime) / real_of_int (duration stage)"
    using assms by (simp add: divide_right_mono)
  then have "e \<le> e'"
    unfolding e_def e'_def by (simp add: min_le_iff_disj)
  then have "e * w \<le> e' * w" using w by (rule mult_right_mono)
  then show ?thesis
    unfolding stage_percent_split e_def e'_def w_def by simp
qed

lemma stage_percent_bounds:
  assumes "0 < duration stage" "startTime \<le> now"
  shows "tp \<le> stage_percent stage startTime tp now"
    and "stage_percent stage startTime tp now
           \<le> tp + real_of_int (duration stage) / real_of_int totalDuration * 100"
    and "stage_percent stage startTime tp now
           \<le> tp + 100 * real_of_int (now - startTime) / real_of_int totalDuration"
proof -
  define q where "q = real_of_int (now - startTime) / real_of_int (duration stage)"
  define w where "w = real_of_int (duration stage) / real_of_int totalDuration * 100"
  have w: "0 \<le> w" unfolding w_def using assms(1) by (rule stage_weight_nonneg)
  have q: "0 \<le> q" unfolding q_def using assms by simp
  have sp: "stage_percent stage startTime tp now = tp + min q 1 * w"
    unfolding stage_percent_split q_def w_def by simp
  have "0 \<le> min q 1" using q by simp
  then have "0 \<le> min q 1 * w" using w by (rule mult_nonneg_nonneg)
  then show "tp \<le> stage_percent stage startTime tp now" using sp by simp
  have "min q 1 * w \<le> 1 * w" using _ w by (rule mult_right_mono) simp
  then show "stage_percent stage startTime tp now
           \<le> tp + real_of_int (duration stage) / real_of_int totalDuration * 100"
    using sp unfolding w_def by simp
  have "min q 1 * w \<le> q * w" using _ w by (rule mult_right_mono) simp
  also have "q * w = 100 * real_of_int (now - startTime) / real_of_int totalDuration"
    unfolding q_def w_def using assms by simp
  finally show "stage_percent stage startTime tp now
           \<le> tp + 100 * real_of_int (now - startTime) / real_of_int totalDuration"
    using sp by simp
qed

lemma stage_loop_shape:
  assumes "stage_loop stage startTime tp clock = (reports, rest)"
  shows "(\<forall>r\<in>set reports. at_time r \<in> set clock \<and>
            percent r = stage_percent stage startTime tp (at_time r)) \<and>
         (\<forall>clock'. rest = Some clock' \<longrightarrow>
            (\<exists>pre t. clock = pre @ t # clock' \<and> startTime + duration stage \<le> t))"
  using assms
proof (induction stage startTime tp clock arbitrary: reports rest rule: stage_loop.induct)
  case (1 stage startTime totalProgress)
  then show ?case by simp
next
  case (2 stage startTime totalProgress t)
  then show ?case by (auto split: if_splits)
next
  case (3 stage startTime totalProgress t now clock)
  show ?case
  proof (cases "t < startTime + duration stage")
    case True
    obtain reports' rest' where rec: "stage_loop stage startTime totalProgress clock = (reports', rest')"
      by (cases "stage_loop stage startTime totalProgress clock")
    with 3 True have eq: "reports = \<lparr>at_time = now, percent = stage_percent stage startTime totalProgress now\<rparr> # reports'"
      "rest = rest'"
      by (simp_all add: Let_def stage_percent_def)
    from "3.IH" [OF True refl refl refl refl rec]
    have ih: "\<forall>r\<in>set reports'. at_time r \<in> set clock \<and>
            percent r = stage_percent stage startTime totalProgress (at_time r)"
       "\<forall>clock'. rest' = Some clock' \<longrightarrow>
            (\<exists>pre t. clock = pre @ t # clock' \<and> startTime + duration stage \<le> t)"
      by simp_all
    show ?thesis
    proof (intro conjI allI impI)
      show "\<forall>r\<in>set reports. at_time r \<in> set (t # now # clock) \<and>
              percent r = stage_percent stage startTime totalProgress (at_time r)"
        using ih(1) eq by auto
    next
      fix clock' assume "rest = Some clock'"
      with ih(2) eq obtain pre u where "clock = pre @ u # clock'" "startTime + duration stage \<le> u"
        by blast
      then have "t # now # clock = (t # now # pre) @ u # clock'" by simp
      with \<open>startTime + duration stage \<le> u\<close>
      show "\<exists>pre t'. t # now # clock = pre @ t' # clock' \<and> startTime + duration stage \<le> t'"
        by blast
    qed
  next
    case False
    with 3 have "reports = []" "rest = Some (now # clock)" by simp_all
    moreover have "t # now # clock = [] @ t # now # clock" by simp
    ultimately show ?thesis using False by force
  qed
qed


lemma stage_loop_sorted:
  assumes "sorted clock" "0 < duration stage"
    and "stage_loop stage startTime tp clock = (reports, rest)"
  shows "sorted (map percent reports)"
  using assms
proof (induction stage startTime tp clock arbitrary: reports rest rule: stage_loop.induct)
  case (1 stage startTime totalProgress)
  then show ?case by simp
next
  case (2 stage startTime totalProgress t)
  then show ?case by (auto split: if_splits)
next
  case (3 stage startTime totalProgress t now clock)
  show ?case
  proof (cases "t < startTime + duration stage")
    case True
    obtain reports' rest' where rec: "stage_loop stage startTime totalProgress clock = (reports', rest')"
      by (cases "stage_loop stage startTime totalProgress clock")
    with 3 True have eq: "reports = \<lparr>at_time = now, percent = stage_percent stage startTime totalProgress now\<rparr> # reports'"
      by (simp add: Let_def stage_percent_def)
    have sc: "sorted clock" and le: "\<forall>u\<in>set clock. now \<le> u"
      using "3.prems"(1) by simp_all
    from "3.IH" [OF True refl refl refl refl sc "3.prems"(2) rec]
    have ih: "sorted (map percent reports')" .
    have "\<forall>r\<in>set reports'. stage_percent stage startTime totalProgress now \<le> percent r"
    proof
      fix r assume "r \<in> set reports'"
      with stage_loop_shape [OF rec] have "at_time r \<in> set clock"
        "percent r = stage_percent stage startTime totalProgress (at_time r)" by simp_all
      with le stage_percent_mono [OF "3.prems"(2)] 
      show "stage_percent stage startTime totalProgress now \<le> percent r" by simp
    qed
    with ih eq show ?thesis by simp
  next
    case False
    with 3 show ?thesis by simp
  qed
qed

lemma run_stages_props:
  assumes "sorted clock" "\<forall>t\<in>set clock. base \<le> t" "\<forall>st\<in>set stages. 0 < duration st"
  shows "sorted (map percent (run_stages tp stages clock)) \<and>
         (\<forall>r\<in>set (run_stages tp stages clock).
            tp \<le> percent r \<and>
            percent r \<le> tp + 100 * real_of_int (at_time r - base) / real_of_int totalDuration)"
  using assms
proof (induction tp stages clock arbitrary: base rule: run_stages.induct)
  case (1 totalProgress clock)
  then show ?case by simp
next
  case (2 totalProgress stage stages)
  then show ?case by simp
next
  case (3 totalProgress stage stages startTime clock)
  define w where "w = real_of_int (duration stage) / real_of_int totalDuration * 100"
  have d: "0 < duration stage" and ds: "\<forall>st\<in>set stages. 0 < duration st"
    using "3.prems"(3) by simp_all
  have w: "0 \<le> w" unfolding w_def using d by (rule stage_weight_nonneg)
  have sc: "sorted clock" and st_le: "\<forall>u\<in>set clock. startTime \<le> u"
    and base_le: "base \<le> startTime"
    using "3.prems"(1,2) by simp_all
  obtain reports rest where sl: "stage_loop stage startTime totalProgress clock = (reports, rest)"
    by (cases "stage_loop stage startTime totalProgress clock")
  have srt: "sorted (map percent reports)"
    using stage_loop_sorted [OF sc d sl] .
  have bounds: "totalProgress \<le> percent r \<and> percent r \<le> totalProgress + w \<and>
      percent r \<le> totalProgress + 100 * real_of_int (at_time r - base) / real_of_int totalDuration"
    if "r \<in> set reports" for r
  proof -
    from that stage_loop_shape [OF sl] have a: "at_time r \<in> set clock"
      and p: "percent r = stage_percent stage startTime totalProgress (at_time r)" by simp_all
    from a st_le have le: "startTime \<le> at_time r" by simp
    have "real_of_int (at_time r - startTime) \<le> real_of_int (at_time r - base)"
      using base_le by simp
    then have "100 * real_of_int (at_time r - startTime) / real_of_int totalDuration
        \<le> 100 * real_of_int (at_time r - base) / real_of_int totalDuration"
      by (simp add: totalDuration_value)
    with stage_percent_bounds [OF d le, of totalProgress] p show ?thesis
      unfolding w_def by simp
  qed
  show ?case
  proof (cases rest)
    case None
    with sl have "run_stages totalProgress (stage # stages) (startTime # clock) = reports"
      by simp
    with srt bounds show ?thesis by simp
  next
    case (Some clock')
    let ?tp' = "totalProgress + real_of_int (duration stage) / real_of_int totalDuration * 100"
    let ?rec = "run_stages ?tp' stages clock'"
    from Some sl have run: "run_stages totalProgress (stage # stages) (startTime # clock) = reports @ ?rec"
      by simp
    from stage_loop_shape [OF sl] Some obtain pre t where
      cl: "clock = pre @ t # clock'" and t: "startTime + duration stage \<le> t"
      by blast
    from sc cl have sc': "sorted clock'" and "\<forall>u\<in>set clock'. t \<le> u"
      by (simp_all add: sorted_append)
    with t have end_le: "\<forall>u\<in>set clock'. startTime + duration stage \<le> u" by auto
    from "3.IH" [OF sl [symmetric] Some sc' end_le ds]
    have ih_sorted: "sorted (map percent ?rec)"
      and ih: "\<forall>r\<in>set ?rec. ?tp' \<le> percent r \<and>
          percent r \<le> ?tp' + 100 * real_of_int (at_time r - (startTime + duration stage)) / real_of_int totalDuration"
      by simp_all
    have rec_bounds: "totalProgress \<le> percent r \<and>
        percent r \<le> totalProgress + 100 * real_of_int (at_time r - base) / real_of_int totalDuration"
      if "r \<in> set ?rec" for r
    proof -
      from ih that have lo: "totalProgress + w \<le> percent r"
        and hi: "percent r \<le> totalProgress + w +
           100 * real_of_int (at_time r - (startTime + duration stage)) / real_of_int totalDuration"
        unfolding w_def by simp_all
      have "w + 100 * real_of_int (at_time r - (startTime + duration stage)) / real_of_int totalDuration
          = 100 * real_of_int (at_time r - startTime) / real_of_int totalDuration"
        unfolding w_def by (simp add: totalDuration_value field_simps)
      also have "\<dots> \<le> 100 * real_of_int (at_time r - base) / real_of_int totalDuration"
        using base_le by (simp add: totalDuration_value)
      finally show ?thesis using lo hi w by simp
    qed
    have cross: "percent x \<le> percent y" if "x \<in> set reports" "y \<in> set ?rec" for x y
    proof -
      from bounds [OF that(1)] have "percent x \<le> totalProgress + w" by simp
      moreover from ih that(2) have "totalProgress + w \<le> percent y" unfolding w_def by simp
      ultimately show ?thesis by simp
    qed
    have "sorted (map percent (reports @ ?rec))"
      using srt ih_sorted cross by (auto simp: sorted_append)
    with run bounds rec_bounds show ?thesis by auto
  qed
qed

text \<open>
  Claim C4 (as amended). Over the fixed stage table, whose durations sum to 7000 ms, and
  for every run in which the readings of the clock never go back, the reported
  percentages (the initial 0 included) are non-decreasing; no report exceeds the share of
  the total duration that has passed since the first reading, so a report of exactly 100
  is made only at a reading at least 7000 ms after the first one.
\<close>

theorem progress_monotone_and_complete_after_total:
  assumes "sorted (t0 # clock)"
  shows "sorted (reported_percentages (t0 # clock)) \<and>
         (\<forall>r\<in>set (progress_reports (t0 # clock)).
            percent r \<le> 100 * real_of_int (at_time r - t0) / real_of_int totalDuration \<and>
            (percent r = 100 \<longrightarrow> t0 + totalDuration \<le> at_time r)) \<and>
         totalDuration = 7000"
proof -
  have b: "\<forall>t\<in>set (t0 # clock). t0 \<le> t" using assms by simp
  have ds: "\<forall>st\<in>set analysisStages. 0 < duration st"
    by (simp add: analysisStages_def)
  from run_stages_props [OF assms b ds, of 0]
  have srt: "sorted (map percent (progress_reports (t0 # clock)))"
    and bd: "\<forall>r\<in>set (progress_reports (t0 # clock)). 0 \<le> percent r \<and>
        percent r \<le> 100 * real_of_int (at_time r - t0) / real_of_int totalDuration"
    unfolding progress_reports_def by simp_all
  have "sorted (reported_percentages (t0 # clock))"
    unfolding reported_percentages_def using srt bd by simp
  moreover have "t0 + totalDuration \<le> at_time r"
    if "r \<in> set (progress_reports (t0 # clock))" "percent r = 100" for r
  proof -
    from bd that have "100 \<le> 100 * real_of_int (at_time r - t0) / real_of_int totalDuration"
      by auto
    then have "real_of_int totalDuration \<le> real_of_int (at_time r - t0)"
      by (simp add: totalDuration_value)
    then show ?thesis by linarith
  qed
  ultimately show ?thesis using bd by (auto simp: totalDuration_value)
qed

text \<open>
  A run in which every stage loop ends at its first test except the last one, which
  makes one round at 6990 ms and reads 7000 ms for \<open>elapsed\<close>: the only report is 100,
  made 7000 ms after the start.
\<close>

theorem progress_witness:
  "sorted [0, 1000, 1000, 2500, 2500, 4500, 4500, 5700, 5700, 6500, 6500, 6990, 7000, 7001 :: int] \<and>
   progress_reports [0, 1000, 1000, 2500, 2500, 4500, 4500, 5700, 5700, 6500, 6500, 6990, 7000, 7001]
     = [\<lparr>at_time = 7000, percent = 100\<rparr>] \<and>
   sorted (reported_percentages
     [0, 1000, 1000, 2500, 2500, 4500, 4500, 5700, 5700, 6500, 6500, 6990, 7000, 7001]) \<and>
   0 + totalDuration \<le> (7000 :: int)"
  using progress_monotone_and_complete_after_total
    [of 0 "[1000, 1000, 2500, 2500, 4500, 4500, 5700, 5700, 6500, 6500, 6990, 7000, 7001]"]
  by (simp add: progress_reports_def analysisStages_def totalDuration_value)

text \<open>
  \<open>Date.now()\<close> is the wall clock and \<open>elapsed\<close> has no lower bound. When the clock is
  set back 200 ms after the start of the first stage the reports are 0, then -20/7, then
  40/7; and on readings that return to 0 at the start of every stage a report of exactly
  100 is made at the reading 500.
\<close>

theorem clock_stepping_back_counterexample:
  "reported_percentages [200, 0, 0, 0, 600] = [0, - (20 / 7), 40 / 7] \<and>
   \<not> sorted (reported_percentages [200, 0, 0, 0, 600]) \<and>
   progress_reports [0, 1000, 0, 1500, 0, 2000, 0, 1200, 0, 800, 0, 0, 500, 500]
     = [\<lparr>at_time = 500, percent = 100\<rparr>] \<and>
   \<not> (0 + totalDuration \<le> (500 :: int))"
  by (simp add: reported_percentages_def progress_reports_def analysisStages_def totalDuration_value)

section \<open>Properties of the analysis results\<close>

lemma foldl_ambient:
  "foldl (\<lambda>sum s. sum + (if type' s = Ambient then decibel s else 0)) a xs =
     a + (\<Sum>s\<leftarrow>filter (\<lambda>s. type' s = Ambient) xs. decibel s)"
  by (induction xs arbitrary: a) simp_all

text \<open>
  Claim C10. For a non-empty source list the field \<open>noiseLevel\<close> is the sum of the
  decibel values of the sources of type ambient, divided by the number of all sources;
  for the empty list it is 0 (the quotient 0 / 0 is \<open>NaN\<close>, which \<open>|| 0\<close> replaces).
\<close>

theorem noiseLevel_over_all_sources:
  "noiseLevel (generateAnalysisResults [] r1 r2 now) = Num 0 \<and>
   (sources \<noteq> [] \<longrightarrow>
      noiseLevel (generateAnalysisResults sources r1 r2 now) =
        Num ((\<Sum>s\<leftarrow>filter (\<lambda>s. type' s = Ambient) sources. decibel s) / real (length sources)))"
  by (simp add: generateAnalysisResults_def foldl_ambient Let_def)

text \<open>
  The three sources of the recorder with all draws 0: one ambient source of 35 dB among
  three sources gives 35 / 3, not 35.
\<close>

theorem noiseLevel_witness:
  "analyzeRecordedAudio (\<lambda>_. 0) \<noteq> [] \<and>
   noiseLevel (generateAnalysisResults (analyzeRecordedAudio (\<lambda>_. 0)) 0 0 []) = Num (35 / 3)"
  using noiseLevel_over_all_sources [of 0 0 "[]" "analyzeRecordedAudio (\<lambda>_. 0)"]
  by (simp add: analyzeRecordedAudio_def)

section \<open>Properties of the upload path\<close>

lemma foldl_frequency:
  "foldl (\<lambda>acc source. acc + frequency source / 1000) a sources =
     a + (\<Sum>source\<leftarrow>sources. frequency source / 1000)"
  by (induction sources arbitrary: a) simp_all

text \<open>
  Whatever the draws, once the analysis started by an upload has ended the dataset size
  is the sum of the generated frequencies times 0.001; the byte sizes do not enter.
\<close>

lemma upload_size_is_frequency_sum:
  assumes "filter isAudioFile fs \<noteq> []"
  shows "datasetSize (snd (upload rnd fs (uploadedFiles, app))) =
           (\<Sum>source\<leftarrow>analyzeFiles rnd (uploadedFiles @ filter isAudioFile fs). frequency source * 0.001)"
  using assms
  by (simp add: upload_def handleFileSelect_def analyzeFiles_done_def handleAudioAnalysis_def
      foldl_frequency Let_def)

text \<open>
  Claim C5, evaluated on the code. Uploading one file of 2 MB sets the dataset size to 2,
  but the analysis that the upload starts ends in \<open>handleAudioAnalysis\<close>, which sets it
  again, to the sum of the generated frequencies times 0.001. With all draws 0 the two
  generated sources have 100 Hz each: the report lists two rows and shows 0.2 as the
  dataset size.
\<close>

theorem upload_size_overwritten:
  "datasetSize (fst (snd (handleFileSelect (Some [twoMegabyteFile]) ([], initialApp)))) = 2 \<and>
   datasetSize (snd (upload (\<lambda>_. 0) [twoMegabyteFile] ([], initialApp))) = 1 / 5 \<and>
   length (audioSources (snd (upload (\<lambda>_. 0) [twoMegabyteFile] ([], initialApp)))) = 2 \<and>
   (case showReport (snd (upload (\<lambda>_. 0) [twoMegabyteFile] ([], initialApp))) None of
      NoAnalysisDataAvailable \<Rightarrow> False
    | ReportOf page \<Rightarrow> shown_datasetSize page = 1 / 5 \<and> length (rows page) = 2)"
  by (simp add: handleFileSelect_def upload_def analyzeFiles_done_def handleAudioAnalysis_def
      analyzeFiles_def fileSources_def mockSource_def isAudioFile_def startsWith_def
      setDatasetSize_def initialApp_def twoMegabyteFile_def showReport_def ReportGenerator_def
      Let_def upt_rec [of 0 2] upt_rec [of "Suc 0" 2])

section \<open>Properties of the views on an empty source list\<close>

text \<open>
  Claim C7. With no sources the report is the explicit no-data view, and a frame of the
  sonar view is completed: it holds the range rings, the listener and the pulse, no
  marker and no label, and leaves the store as it was. The per-source computations
  (the division by the list length among them) and the maximum and average of the report
  are not evaluated.
\<close>

theorem empty_source_list_views:
  "ReportGenerator [] analysisData shownSize = NoAnalysisDataAvailable \<and>
   animate st [] isRecording s =
     (\<lparr>rings = drawRangeCircles (listenerPosition s), markers = [],
       listener = listenerPosition s,
       pulse = (if isRecording then Some (drawPulse (pulseRadius s)) else None),
       labels = []\<rparr>, st) \<and>
   renderSonar isRecording s (newAnalysis []) = (fst (animate [] [] isRecording s), newAnalysis [])"
  by (simp add: ReportGenerator_def animate_def drawLabels_def renderSonar_def newAnalysis_def)

section \<open>Properties of the placement of markers and labels\<close>


lemma foldl_decimal_snoc:
  "foldl (\<lambda>acc c. 10 * acc + digit_value c) 0 (ds @ [c]) =
     10 * foldl (\<lambda>acc c. 10 * acc + digit_value c) 0 ds + digit_value c"
  by simp












lemma drawLabel_xy:
  assumes "index < len"
  shows "label_x (drawLabel index len source center) =
           Num (pt_x center + cos (2 * pi * (real index / real len)) * 280)"
    and "label_y (drawLabel index len source center) =
           Num (pt_y center + sin (2 * pi * (real index / real len)) * 280)"
  using assms by (simp_all add: drawLabel_def Let_def mult.commute mult.left_commute)

lemma drawLabels_xy:
  "map (\<lambda>l. (label_x l, label_y l)) (drawLabels sources center) =
     map (\<lambda>i. (Num (pt_x center + cos (2 * pi * (real i / real (length sources))) * 280),
                Num (pt_y center + sin (2 * pi * (real i / real (length sources))) * 280)))
       [0..<length sources]"
proof -
  let ?g = "\<lambda>i. (Num (pt_x center + cos (2 * pi * (real i / real (length sources))) * 280),
                Num (pt_y center + sin (2 * pi * (real i / real (length sources))) * 280))"
  have "map (\<lambda>l. (label_x l, label_y l)) (drawLabels sources center) =
        map (\<lambda>p. ?g (fst p)) (enumerate 0 sources)"
    unfolding drawLabels_def map_map
  proof (rule map_cong [OF refl])
    fix p assume "p \<in> set (enumerate 0 sources)"
    then have "fst p < length sources" by (auto simp: in_set_enumerate_eq)
    then show "((\<lambda>l. (label_x l, label_y l)) \<circ>
          (\<lambda>(index, source). drawLabel index (length sources) source center)) p = ?g (fst p)"
      by (cases p) (simp add: drawLabel_xy)
  qed
  also have "\<dots> = map ?g (map fst (enumerate 0 sources))"
    by (simp only: map_map comp_def)
  also have "\<dots> = map ?g [0..<length sources]"
    by (simp only: map_fst_enumerate add_0)
  finally show ?thesis .
qed

lemma labels_finite:
  "list_all (\<lambda>l. is_finite (label_x l) \<and> is_finite (label_y l)) (drawLabels sources center)"
proof -
  have "list_all (\<lambda>p. is_finite (fst p) \<and> is_finite (snd p))
          (map (\<lambda>l. (label_x l, label_y l)) (drawLabels sources center))"
    unfolding drawLabels_xy by (simp add: list_all_iff)
  then show ?thesis by (simp add: list_all_iff)
qed

section \<open>Properties of the mock source generators\<close>

lemma floor_draw_3:
  assumes "0 \<le> r" "r < 1"
  shows "nat (2 + \<lfloor>(r :: real) * 3\<rfloor>) \<in> {2, 3, 4}"
proof -
  define f where "f = \<lfloor>r * 3\<rfloor>"
  have "0 \<le> f" unfolding f_def using assms by simp
  moreover have "f < 3" unfolding f_def using assms by (simp add: floor_less_iff)
  ultimately have "f = 0 \<or> f = 1 \<or> f = 2" by arith
  then have "nat (2 + f) \<in> {2, 3, 4}" by auto
  then show ?thesis unfolding f_def .
qed

lemma floor_draw_5:
  assumes "0 \<le> r" "r < 1"
  shows "nat \<lfloor>(r :: real) * 5\<rfloor> < 5"
proof -
  define f where "f = \<lfloor>r * 5\<rfloor>"
  have "f < 5" unfolding f_def using assms by (simp add: floor_less_iff)
  then have "nat f < 5" by arith
  then show ?thesis unfolding f_def .
qed

lemma category_interval:
  assumes "0 \<le> r" "c < 5"
  shows "nat \<lfloor>(r :: real) * 5\<rfloor> = c \<longleftrightarrow> real c / 5 \<le> r \<and> r < (real c + 1) / 5"
proof -
  have "0 \<le> \<lfloor>r * 5\<rfloor>" using assms by simp
  then have "nat \<lfloor>r * 5\<rfloor> = c \<longleftrightarrow> \<lfloor>r * 5\<rfloor> = int c" by auto
  also have "\<dots> \<longleftrightarrow> real_of_int (int c) \<le> r * 5 \<and> r * 5 < real_of_int (int c) + 1"
    by (rule floor_eq_iff)
  also have "\<dots> \<longleftrightarrow> real c / 5 \<le> r \<and> r < (real c + 1) / 5"
    by (simp add: field_simps)
  finally show ?thesis .
qed

lemma categories_nth_eq:
  "i < 5 \<Longrightarrow> c < 5 \<Longrightarrow> categories ! i = categories ! c \<longleftrightarrow> i = c"
  using nth_eq_iff_index_eq [of categories i c]
  by (simp add: categories_def)

lemma mockSource_props:
  assumes "\<forall>k. 0 \<le> rnd k \<and> rnd k < 1"
  shows "visible (mockSource rnd k fl i j)"
    and "30 \<le> decibel (mockSource rnd k fl i j)"
    and "decibel (mockSource rnd k fl i j) < 90"
    and "type' (mockSource rnd k fl i j) \<in> set categories"
    and "c < 5 \<Longrightarrow> type' (mockSource rnd k fl i j) = categories ! c \<longleftrightarrow>
           real c / 5 \<le> rnd k \<and> rnd k < (real c + 1) / 5"
proof -
  have r: "0 \<le> rnd n" "rnd n < 1" for n using assms by simp_all
  show "visible (mockSource rnd k fl i j)" by (simp add: mockSource_def)
  show "30 \<le> decibel (mockSource rnd k fl i j)" using r [of "k + 1"] by (simp add: mockSource_def)
  show "decibel (mockSource rnd k fl i j) < 90" using r [of "k + 1"] by (simp add: mockSource_def)
  have lt: "nat \<lfloor>rnd k * 5\<rfloor> < 5" using r [of k] by (rule floor_draw_5)
  then have "categories ! nat \<lfloor>rnd k * 5\<rfloor> \<in> set categories"
    by (intro nth_mem) (simp add: categories_def)
  then show "type' (mockSource rnd k fl i j) \<in> set categories"
    by (simp add: mockSource_def)
  show "type' (mockSource rnd k fl i j) = categories ! c \<longleftrightarrow>
           real c / 5 \<le> rnd k \<and> rnd k < (real c + 1) / 5" if "c < 5"
    using categories_nth_eq [OF lt that] category_interval [OF r(1) that, of k]
    by (simp add: mockSource_def)
qed

lemma fileSources_props:
  assumes "\<forall>k. 0 \<le> rnd k \<and> rnd k < 1"
  shows "2 \<le> length (fst (fileSources rnd k fl i)) \<and> length (fst (fileSources rnd k fl i)) \<le> 4 \<and>
         (\<forall>s\<in>set (fst (fileSources rnd k fl i)).
            visible s \<and> 30 \<le> decibel s \<and> decibel s < 90 \<and> type' s \<in> set categories)"
proof -
  have "nat (2 + \<lfloor>rnd k * 3\<rfloor>) \<in> {2, 3, 4}"
    using assms by (intro floor_draw_3) simp_all
  then have "2 \<le> length (fst (fileSources rnd k fl i)) \<and> length (fst (fileSources rnd k fl i)) \<le> 4"
    by (auto simp: fileSources_def Let_def)
  moreover have "\<forall>s\<in>set (fst (fileSources rnd k fl i)).
            visible s \<and> 30 \<le> decibel s \<and> decibel s < 90 \<and> type' s \<in> set categories"
    using mockSource_props(1-4) [OF assms]
    by (auto simp: fileSources_def Let_def)
  ultimately show ?thesis by simp
qed

lemma sourcesPerFile_props:
  assumes "\<forall>k. 0 \<le> rnd k \<and> rnd k < 1"
  shows "length (sourcesPerFile rnd k i files) = length files \<and>
         (\<forall>g\<in>set (sourcesPerFile rnd k i files).
            2 \<le> length g \<and> length g \<le> 4 \<and>
            (\<forall>s\<in>set g. visible s \<and> 30 \<le> decibel s \<and> decibel s < 90 \<and> type' s \<in> set categories))"
proof (induction files arbitrary: k i)
  case Nil
  then show ?case by simp
next
  case (Cons fl files)
  obtain srcs k' where fs: "fileSources rnd k fl i = (srcs, k')"
    by (cases "fileSources rnd k fl i")
  with fileSources_props [OF assms, of k fl i] Cons.IH [of k' "Suc i"]
  show ?case by simp
qed

lemma mockSource_draws:
  "type' (mockSource rnd k fl i j) = categories ! nat \<lfloor>rnd k * 5\<rfloor>"
  "decibel (mockSource rnd k fl i j) = 30 + rnd (k + 1) * 60"
  by (simp_all add: mockSource_def)

lemma mockSource_category_draw_replaced:
  "decibel (mockSource (rnd(k := r)) k fl i j) = decibel (mockSource rnd k fl i j)"
  "type' (mockSource (rnd(k := r)) k fl i j) = categories ! nat \<lfloor>r * 5\<rfloor>"
  by (simp_all add: mockSource_def)

lemma fileSources_draws:
  "map (\<lambda>s. (type' s, decibel s)) (fst (fileSources rnd k fl i)) =
     map (\<lambda>j. (categories ! nat \<lfloor>rnd (k + 1 + 8 * j) * 5\<rfloor>, 30 + rnd (k + 1 + 8 * j + 1) * 60))
       [0..<nat (2 + \<lfloor>rnd k * 3\<rfloor>)]"
  by (simp add: fileSources_def Let_def comp_def mockSource_draws)

lemma fileSources_each_draw:
  "(\<exists>k'. length (fst (fileSources rnd k fl i)) = nat (2 + \<lfloor>rnd k' * 3\<rfloor>)) \<and>
   (\<forall>s\<in>set (fst (fileSources rnd k fl i)).
      \<exists>k'. type' s = categories ! nat \<lfloor>rnd k' * 5\<rfloor> \<and> decibel s = 30 + rnd (k' + 1) * 60)"
proof -
  have "\<exists>k'. length (fst (fileSources rnd k fl i)) = nat (2 + \<lfloor>rnd k' * 3\<rfloor>)"
    by (rule exI [of _ k]) (simp add: fileSources_def Let_def)
  moreover have "\<exists>k'. type' s = categories ! nat \<lfloor>rnd k' * 5\<rfloor> \<and> decibel s = 30 + rnd (k' + 1) * 60"
    if "s \<in> set (fst (fileSources rnd k fl i))" for s
  proof -
    from that obtain j where "s = mockSource rnd (k + 1 + 8 * j) fl i j"
      by (auto simp: fileSources_def Let_def)
    then show ?thesis
      using mockSource_draws [of rnd "k + 1 + 8 * j" fl i j] by blast
  qed
  ultimately show ?thesis by blast
qed

lemma sourcesPerFile_each_draw:
  "\<forall>g\<in>set (sourcesPerFile rnd k i files).
     (\<exists>k'. length g = nat (2 + \<lfloor>rnd k' * 3\<rfloor>)) \<and>
     (\<forall>s\<in>set g. \<exists>k'. type' s = categories ! nat \<lfloor>rnd k' * 5\<rfloor> \<and> decibel s = 30 + rnd (k' + 1) * 60)"
proof (induction files arbitrary: k i)
  case Nil
  then show ?case by simp
next
  case (Cons fl files)
  obtain srcs k' where fs: "fileSources rnd k fl i = (srcs, k')"
    by (cases "fileSources rnd k fl i")
  with fileSources_each_draw [of rnd k fl i] Cons.IH [of k' "Suc i"]
  show ?case by simp
qed

lemma recorder_draws:
  "map (\<lambda>s. (type' s, decibel s, visible s)) (analyzeRecordedAudio rnd) =
     [(Noise, 45 + rnd 0 * 20, True), (Voice, 60 + rnd 6 * 25, True), (Ambient, 35 + rnd 12 * 15, True)]"
  by (simp add: analyzeRecordedAudio_def)

text \<open>
  Claim C8 (as amended). With every draw in the interval from 0 to 1, \<open>analyzeFiles\<close>
  produces for each file \<open>2 + floor(3 * draw)\<close> sources, between 2 and 4, all visible.
  Each source has the category at index \<open>floor(5 * draw)\<close> of the five categories, so
  that each category has a draw interval of length 1/5, and the decibel level
  \<open>30 + 60 * draw\<close> with the draw that follows the one of the category: the level lies
  from 30 (included) to 90 (excluded) and stays the same when the category draw is
  replaced by any other value. \<open>analyzeRecordedAudio\<close> produces exactly three visible
  sources of the fixed categories noise, voice and ambient, with the decibel levels
  \<open>45 + 20 * draw\<close>, \<open>60 + 25 * draw\<close> and \<open>35 + 15 * draw\<close>, that is in 45 to 65, 60 to
  85 and 35 to 50.
\<close>

theorem generators_amended:
  assumes "\<forall>k. 0 \<le> rnd k \<and> rnd k < 1"
  shows "analyzeFiles rnd files = concat (sourcesPerFile rnd 0 0 files) \<and>
         length (sourcesPerFile rnd 0 0 files) = length files \<and>
         (\<forall>g\<in>set (sourcesPerFile rnd 0 0 files).
            2 \<le> length g \<and> length g \<le> 4 \<and>
            (\<exists>k'. length g = nat (2 + \<lfloor>rnd k' * 3\<rfloor>)) \<and>
            (\<forall>s\<in>set g. visible s \<and> 30 \<le> decibel s \<and> decibel s < 90 \<and> type' s \<in> set categories \<and>
               (\<exists>k'. type' s = categories ! nat \<lfloor>rnd k' * 5\<rfloor> \<and> decibel s = 30 + rnd (k' + 1) * 60))) \<and>
         map (\<lambda>s. (type' s, decibel s)) (fst (fileSources rnd k fl i)) =
           map (\<lambda>j. (categories ! nat \<lfloor>rnd (k + 1 + 8 * j) * 5\<rfloor>, 30 + rnd (k + 1 + 8 * j + 1) * 60))
             [0..<nat (2 + \<lfloor>rnd k * 3\<rfloor>)] \<and>
         decibel (mockSource rnd k fl i j) = 30 + rnd (k + 1) * 60 \<and>
         decibel (mockSource (rnd(k := r)) k fl i j) = decibel (mockSource rnd k fl i j) \<and>
         type' (mockSource (rnd(k := r)) k fl i j) = categories ! nat \<lfloor>r * 5\<rfloor> \<and>
         (\<forall>c<5. type' (mockSource rnd k fl i j) = categories ! c \<longleftrightarrow>
                  real c / 5 \<le> rnd k \<and> rnd k < (real c + 1) / 5) \<and>
         map (\<lambda>s. (type' s, decibel s, visible s)) (analyzeRecordedAudio rnd) =
           [(Noise, 45 + rnd 0 * 20, True), (Voice, 60 + rnd 6 * 25, True),
            (Ambient, 35 + rnd 12 * 15, True)] \<and>
         (\<exists>noise voice ambient.
            analyzeRecordedAudio rnd = [noise, voice, ambient] \<and>
            type' noise = Noise \<and> 45 \<le> decibel noise \<and> decibel noise < 65 \<and> visible noise \<and>
            type' voice = Voice \<and> 60 \<le> decibel voice \<and> decibel voice < 85 \<and> visible voice \<and>
            type' ambient = Ambient \<and> 35 \<le> decibel ambient \<and> decibel ambient < 50 \<and> visible ambient)"
proof -
  have r: "0 \<le> rnd n" "rnd n < 1" for n using assms by simp_all
  have rec: "\<exists>noise voice ambient.
            analyzeRecordedAudio rnd = [noise, voice, ambient] \<and>
            type' noise = Noise \<and> 45 \<le> decibel noise \<and> decibel noise < 65 \<and> visible noise \<and>
            type' voice = Voice \<and> 60 \<le> decibel voice \<and> decibel voice < 85 \<and> visible voice \<and>
            type' ambient = Ambient \<and> 35 \<le> decibel ambient \<and> decibel ambient < 50 \<and> visible ambient"
    using r [of 0] r [of 6] r [of 12] by (simp add: analyzeRecordedAudio_def)
  have uni: "\<forall>c<5. type' (mockSource rnd k fl i j) = categories ! c \<longleftrightarrow>
                  real c / 5 \<le> rnd k \<and> rnd k < (real c + 1) / 5"
    using mockSource_props(5) [OF assms] by blast
  have groups: "\<forall>g\<in>set (sourcesPerFile rnd 0 0 files).
            2 \<le> length g \<and> length g \<le> 4 \<and>
            (\<exists>k'. length g = nat (2 + \<lfloor>rnd k' * 3\<rfloor>)) \<and>
            (\<forall>s\<in>set g. visible s \<and> 30 \<le> decibel s \<and> decibel s < 90 \<and> type' s \<in> set categories \<and>
               (\<exists>k'. type' s = categories ! nat \<lfloor>rnd k' * 5\<rfloor> \<and> decibel s = 30 + rnd (k' + 1) * 60))"
    using sourcesPerFile_props [OF assms, of 0 0 files] sourcesPerFile_each_draw [of rnd 0 0 files]
    by blast
  have len: "length (sourcesPerFile rnd 0 0 files) = length files"
    using sourcesPerFile_props [OF assms, of 0 0 files] by simp
  have an: "analyzeFiles rnd files = concat (sourcesPerFile rnd 0 0 files)"
    by (simp add: analyzeFiles_def)
  show ?thesis
    using an len groups fileSources_draws [of rnd k fl i] mockSource_draws(2) [of rnd k fl i j]
      mockSource_category_draw_replaced [of rnd k r fl i j] uni recorder_draws [of rnd] rec
    by (intro conjI) assumption+
qed

text \<open>
  The categories of the recorder's sources do not depend on the draws (with every draw
  9/10 a drawn category would be the last one, unknown), and \<open>analyzeFiles\<close> gives a
  noise source 30 dB, below the 45 dB at which the recorder's noise range starts.
\<close>

theorem generators_counterexample:
  "map type' (analyzeRecordedAudio (\<lambda>_. 0)) = [Noise, Voice, Ambient] \<and>
   map type' (analyzeRecordedAudio (\<lambda>_. 9 / 10)) = [Noise, Voice, Ambient] \<and>
   categories ! nat \<lfloor>(9 / 10 :: real) * 5\<rfloor> = Unknown \<and>
   map (\<lambda>s. (type' s, decibel s)) (analyzeFiles (\<lambda>_. 0) [twoMegabyteFile]) = [(Noise, 30), (Noise, 30)] \<and>
   map decibel (analyzeRecordedAudio (\<lambda>_. 0)) = [45, 60, 35]"
  by (simp add: analyzeRecordedAudio_def analyzeFiles_def fileSources_def mockSource_def
      categories_def upt_rec [of 0 2] upt_rec [of "Suc 0" 2])

text \<open>
  The generators on the example draws: the first source of the file gets the category
  voice (draw 0.3) and 60 dB (draw 0.5), the second noise and 30 dB.
\<close>

theorem generators_witness:
  "map (\<lambda>s. (type' s, decibel s, visible s)) (analyzeFiles exampleDraws [twoMegabyteFile]) =
     [(Voice, 60, True), (Noise, 30, True)] \<and>
   map length (sourcesPerFile exampleDraws 0 0 [twoMegabyteFile]) = [2] \<and>
   map (\<lambda>s. (visible s, decibel s, type' s)) (analyzeRecordedAudio exampleDraws) =
     [(True, 45, Noise), (True, 60, Voice), (True, 35, Ambient)]"
proof -
  have h: "\<forall>k. 0 \<le> exampleDraws k \<and> exampleDraws k < 1"
    by (simp add: exampleDraws_def)
  show ?thesis
    using generators_amended [OF h, of "[twoMegabyteFile]"]
    by (simp add: analyzeFiles_def fileSources_def mockSource_def analyzeRecordedAudio_def
        categories_def exampleDraws_def upt_rec [of 0 2] upt_rec [of "Suc 0" 2])
qed

section \<open>Properties of the source objects under toggles and frames\<close>

lemma drawAudioSource_keeps:
  "fixedFields (snd (drawAudioSource source center)) = fixedFields source"
  "visible (snd (drawAudioSource source center)) = visible source"
  by (simp_all add: drawAudioSource_def fixedFields_def Let_def)

lemma drawSources_keeps:
  assumes "drawSources st refs center = (ms, st')"
  shows "length st' = length st \<and>
         (\<forall>r<length st. fixedFields (st' ! r) = fixedFields (st ! r) \<and>
                          visible (st' ! r) = visible (st ! r))"
  using assms
proof (induction refs arbitrary: st ms st')
  case Nil
  then show ?case by simp
next
  case (Cons r refs)
  obtain m src' where d: "drawAudioSource (st ! r) center = (m, src')"
    by (cases "drawAudioSource (st ! r) center")
  obtain ms' st2 where rec: "drawSources (st[r := src']) refs center = (ms', st2)"
    by (cases "drawSources (st[r := src']) refs center")
  from Cons.prems d rec have st': "st' = st2" by simp
  from d drawAudioSource_keeps [of "st ! r" center]
  have k: "fixedFields src' = fixedFields (st ! r)" "visible src' = visible (st ! r)" by simp_all
  from Cons.IH [OF rec]
  have ih: "length st2 = length st"
    "\<forall>q<length st. fixedFields (st2 ! q) = fixedFields (st[r := src'] ! q) \<and>
                      visible (st2 ! q) = visible (st[r := src'] ! q)"
    by simp_all
  have "fixedFields (st[r := src'] ! q) = fixedFields (st ! q) \<and>
        visible (st[r := src'] ! q) = visible (st ! q)" if "q < length st" for q
    using that k by (cases "q = r") simp_all
  with ih st' show ?case by simp
qed

lemma toggleMap_keeps:
  assumes "toggleMap soundId st refs = (st', refs')" "\<forall>r\<in>set refs. r < length st"
  shows "length st \<le> length st' \<and> (\<forall>q<length st. st' ! q = st ! q) \<and>
         (\<forall>r\<in>set refs'. r < length st') \<and>
         map (\<lambda>r. fixedFields (st' ! r)) refs' = map (\<lambda>r. fixedFields (st ! r)) refs \<and>
         map (\<lambda>r. position (st' ! r)) refs' = map (\<lambda>r. position (st ! r)) refs"
  using assms
proof (induction refs arbitrary: st st' refs')
  case Nil
  then show ?case by simp
next
  case (Cons r refs)
  have r: "r < length st" and rs: "\<forall>q\<in>set refs. q < length st"
    using Cons.prems(2) by simp_all
  show ?case
  proof (cases "id' (st ! r) = soundId")
    case True
    define copy where "copy = (st ! r)\<lparr>visible := \<not> visible (st ! r)\<rparr>"
    obtain st2 refs2 where rec: "toggleMap soundId (st @ [copy]) refs = (st2, refs2)"
      by (cases "toggleMap soundId (st @ [copy]) refs")
    with Cons.prems(1) True have eq: "st' = st2" "refs' = length st # refs2"
      by (simp_all add: copy_def)
    have rs': "\<forall>q\<in>set refs. q < length (st @ [copy])" using rs by auto
    from Cons.IH [OF rec rs']
    have ih: "length (st @ [copy]) \<le> length st2"
      "\<forall>q<length (st @ [copy]). st2 ! q = (st @ [copy]) ! q"
      "\<forall>q\<in>set refs2. q < length st2"
      "map (\<lambda>r. fixedFields (st2 ! r)) refs2 = map (\<lambda>r. fixedFields ((st @ [copy]) ! r)) refs"
      "map (\<lambda>r. position (st2 ! r)) refs2 = map (\<lambda>r. position ((st @ [copy]) ! r)) refs"
      by simp_all
    have old: "st2 ! q = st ! q" if "q < length st" for q
      using ih(2) that by (simp add: nth_append)
    have new: "st2 ! length st = copy"
      using ih(2) by simp
    have f: "map (\<lambda>r. fixedFields ((st @ [copy]) ! r)) refs = map (\<lambda>r. fixedFields (st ! r)) refs"
      using rs by (simp add: nth_append)
    have p: "map (\<lambda>r. position ((st @ [copy]) ! r)) refs = map (\<lambda>r. position (st ! r)) refs"
      using rs by (simp add: nth_append)
    have c: "fixedFields copy = fixedFields (st ! r)" "position copy = position (st ! r)"
      by (simp_all add: copy_def fixedFields_def)
    show ?thesis
      using eq ih(1,3,4,5) old new f p c by auto
  next
    case False
    obtain st2 refs2 where rec: "toggleMap soundId st refs = (st2, refs2)"
      by (cases "toggleMap soundId st refs")
    with Cons.prems(1) False have eq: "st' = st2" "refs' = r # refs2" by simp_all
    from Cons.IH [OF rec rs]
    have ih: "length st \<le> length st2" "\<forall>q<length st. st2 ! q = st ! q"
      "\<forall>q\<in>set refs2. q < length st2"
      "map (\<lambda>r. fixedFields (st2 ! r)) refs2 = map (\<lambda>r. fixedFields (st ! r)) refs"
      "map (\<lambda>r. position (st2 ! r)) refs2 = map (\<lambda>r. position (st ! r)) refs"
      by simp_all
    show ?thesis using eq ih r by auto
  qed
qed

lemma toggle_step:
  assumes "validRefs st"
  shows "validRefs (toggleSoundVisibility soundId st)"
    and "map fixedFields (currentSources (toggleSoundVisibility soundId st)) = map fixedFields (currentSources st)"
    and "map position (currentSources (toggleSoundVisibility soundId st)) = map position (currentSources st)"
proof -
  obtain st' refs' where t: "toggleMap soundId (store st) (sourceRefs st) = (st', refs')"
    by (cases "toggleMap soundId (store st) (sourceRefs st)")
  from assms have v: "\<forall>r\<in>set (sourceRefs st). r < length (store st)" by (simp add: validRefs_def)
  from toggleMap_keeps [OF t v] t
  show "validRefs (toggleSoundVisibility soundId st)"
    and "map fixedFields (currentSources (toggleSoundVisibility soundId st)) = map fixedFields (currentSources st)"
    and "map position (currentSources (toggleSoundVisibility soundId st)) = map position (currentSources st)"
    by (simp_all add: validRefs_def toggleSoundVisibility_def currentSources_def comp_def)
qed

lemma render_step:
  assumes "validRefs st"
  shows "validRefs (snd (renderSonar isRecording s st))"
    and "map fixedFields (currentSources (snd (renderSonar isRecording s st))) = map fixedFields (currentSources st)"
    and "map visible (currentSources (snd (renderSonar isRecording s st))) = map visible (currentSources st)"
proof -
  let ?refs = "filter (\<lambda>r. visible (store st ! r)) (sourceRefs st)"
  obtain ms st' where d: "drawSources (store st) ?refs (listenerPosition s) = (ms, st')"
    by (cases "drawSources (store st) ?refs (listenerPosition s)")
  then have r: "snd (renderSonar isRecording s st) = st\<lparr>store := st'\<rparr>"
    by (simp add: renderSonar_def animate_def)
  from assms have v: "\<forall>r\<in>set (sourceRefs st). r < length (store st)" by (simp add: validRefs_def)
  from drawSources_keeps [OF d]
  have k: "length st' = length (store st)"
    "\<forall>r<length (store st). fixedFields (st' ! r) = fixedFields (store st ! r) \<and>
                          visible (st' ! r) = visible (store st ! r)"
    by simp_all
  show "validRefs (snd (renderSonar isRecording s st))"
    using v k(1) by (simp add: r validRefs_def)
  show "map fixedFields (currentSources (snd (renderSonar isRecording s st))) = map fixedFields (currentSources st)"
    using v k(2) by (simp add: r currentSources_def)
  show "map visible (currentSources (snd (renderSonar isRecording s st))) = map visible (currentSources st)"
    using v k(2) by (simp add: r currentSources_def)
qed

lemma appStep_keeps:
  assumes "validRefs st"
  shows "validRefs (appStep st op) \<and>
         map fixedFields (currentSources (appStep st op)) = map fixedFields (currentSources st)"
  using toggle_step(1,2) [OF assms] render_step(1,2) [OF assms]
  by (cases op) simp_all

lemma appRun_keeps:
  assumes "validRefs st"
  shows "validRefs (foldl appStep st ops) \<and>
         map fixedFields (currentSources (foldl appStep st ops)) = map fixedFields (currentSources st)"
  using assms
proof (induction ops arbitrary: st)
  case Nil
  then show ?case by simp
next
  case (Cons op ops)
  from appStep_keeps [OF Cons.prems, of op] Cons.IH [of "appStep st op"]
  show ?case by simp
qed

lemma newAnalysis_valid: "validRefs (newAnalysis sources)"
  by (simp add: validRefs_def newAnalysis_def)

lemma currentSources_newAnalysis: "currentSources (newAnalysis sources) = sources"
  by (simp add: currentSources_def newAnalysis_def map_nth)

text \<open>
  Claim C6 (as amended). From the sources of an analysis run on, and until the list is
  replaced, every sequence of visibility toggles and animation frames leaves the fields
  id, name, type, decibel, frequency, distance and color of every source as generated.
  The two fields that change are \<open>visible\<close>, which only a toggle changes (a frame keeps
  it), and \<open>position\<close>, which only a frame changes (a toggle keeps it): the renderer
  overwrites it for each source it draws.
\<close>

theorem only_visible_and_position_change:
  "map fixedFields (currentSources (appRun (newAnalysis sources) ops)) = map fixedFields sources \<and>
   map position (currentSources (toggleSoundVisibility soundId (appRun (newAnalysis sources) ops))) =
     map position (currentSources (appRun (newAnalysis sources) ops)) \<and>
   map visible (currentSources (snd (renderSonar isRecording s (appRun (newAnalysis sources) ops)))) =
     map visible (currentSources (appRun (newAnalysis sources) ops))"
proof -
  have v: "validRefs (appRun (newAnalysis sources) ops)"
    and f: "map fixedFields (currentSources (appRun (newAnalysis sources) ops)) = map fixedFields sources"
    using appRun_keeps [OF newAnalysis_valid, of sources ops]
    by (simp_all add: appRun_def currentSources_newAnalysis)
  show ?thesis
    using f toggle_step(3) [OF v] render_step(3) [OF v] by simp
qed

text \<open>
  The first source generated for an uploaded file with all draws 0 has the identifier
  \<open>file-0-source-0\<close>, distance 1 and position (0, 0, 0); one animation frame stores
  (5, 0, 0) as its position.
\<close>

theorem frame_overwrites_position:
  "position (hd (currentSources (newAnalysis (analyzeFiles (\<lambda>_. 0) [twoMegabyteFile])))) =
     \<lparr>pos_x = 0, pos_y = 0, pos_z = 0\<rparr> \<and>
   position (hd (currentSources (appRun (newAnalysis (analyzeFiles (\<lambda>_. 0) [twoMegabyteFile]))
       [AnimationFrame False initialSonarState]))) = \<lparr>pos_x = 5, pos_y = 0, pos_z = 0\<rparr>"
  by (simp add: analyzeFiles_def fileSources_def mockSource_def
      upt_rec [of 0 2] upt_rec [of "Suc 0" 2] show_nat.simps [of 0] show_nat.simps[of "Suc 0"]
      digit_char_def twoMegabyteFile_def appRun_def renderSonar_def animate_def newAnalysis_def
      currentSources_def drawAudioSource_def idNumber_def parseInt_def isDigit_def digit_value_def
      initialSonarState_def Let_def)

section \<open>Properties of a frame of the sonar view\<close>









end
